theory Spec2Isabelle
  imports Complex_Main "HOL-Library.Stream"
begin

section \<open>Data model of \<open>cleosim/processing/base.py\<close>\<close>

text \<open>
  Virtual time (\<open>in_time_ms\<close>, \<open>sample_time_ms\<close>, \<open>query_time_ms\<close>, ...) is a Python
  \<open>float\<close>, as the signatures annotate it: a binary64 value. It is modelled by the real
  number it denotes, so comparisons are the mathematical ones.
\<close>

type_synonym time_ms = real

subsection \<open>Float arithmetic\<close>

text \<open>
  Python's \<open>x + y\<close> and \<open>x - y\<close> on floats return the exact sum or difference rounded to
  the nearest binary64 value, ties to the even significand. \<open>binary64\<close> is that rounding:
  a non-zero \<open>x\<close> lies in a binade \<open>2 ^ e \<le> \<bar>x\<bar> < 2 ^ (e + 1)\<close>, whose values are the
  multiples of \<open>2 ^ (e - 52)\<close>; below \<open>2 ^ - 1022\<close> the spacing stays that of the
  subnormal numbers. (A result beyond the largest finite value, which Python turns into
  \<open>inf\<close>, is outside the model.) The serial branch of \<open>put_state\<close> chains a sum and a
  difference of times and is written with these operations. The single sum of
  \<open>ProcessingBlock.process\<close> and the remainder of \<open>is_sampling_now\<close> are the exact ones on
  the denoted numbers.
\<close>

text \<open>The number of binary digits of a natural number (Python's \<open>int.bit_length\<close>).\<close>

fun bit_length :: "nat \<Rightarrow> nat" where
  "bit_length n = (if n = 0 then 0 else Suc (bit_length (n div 2)))"

declare bit_length.simps [simp del]

text \<open>The exponent \<open>e\<close> with \<open>2 ^ e \<le> a < 2 ^ (e + 1)\<close>, for \<open>a > 0\<close>.\<close>

definition ilog2 :: "real \<Rightarrow> int" where
  "ilog2 a = (if 1 \<le> a then int (bit_length (nat \<lfloor>a\<rfloor>)) - 1
              else - int (bit_length (nat (\<lceil>1 / a\<rceil> - 1))))"

definition pow2 :: "int \<Rightarrow> real" where
  "pow2 k = (if 0 \<le> k then 2 ^ nat k else 1 / 2 ^ nat (- k))"

text \<open>Rounding to the nearest integer, a tie to the even one.\<close>

definition round_half_even :: "real \<Rightarrow> int" where
  "round_half_even x =
     (let f = \<lfloor>x\<rfloor>; r = x - of_int f
      in if r < 1 / 2 then f
         else if 1 / 2 < r then f + 1
         else if even f then f else f + 1)"

definition binary64 :: "real \<Rightarrow> real" where
  "binary64 x =
     (if x = 0 then 0
      else (let ulp = pow2 (max (ilog2 \<bar>x\<bar>) (- 1022) - 52)
            in of_int (round_half_even (x / ulp)) * ulp))"

definition py_add :: "real \<Rightarrow> real \<Rightarrow> real" where
  "py_add x y = binary64 (x + y)"

definition py_sub :: "real \<Rightarrow> real \<Rightarrow> real" where
  "py_sub x y = binary64 (x - y)"

text \<open>The exceptions the code raises, as values.\<close>

datatype error =
    TypeError string
  | ValueError string string
  | AttributeError string
  | ZeroDivisionError
  | KeyError string
  | UserException string

subsection \<open>Delay\<close>

text \<open>
  Modelled from the spec: the \<open>Delay\<close> class (\<open>cleosim/processing/delays.py\<close>, imported by
  \<open>base.py\<close>) is not among the sources. The spec gives its contract: \<open>compute()\<close> returns a
  duration on every call, a constant delay always its fixed value, a randomised one an
  independent draw per call. A delay object is therefore the sequence of durations its
  successive \<open>compute()\<close> calls return; a call yields the first and leaves the rest.
\<close>

type_synonym Delay = "time_ms stream"

definition compute :: "Delay \<Rightarrow> time_ms \<times> Delay" where
  "compute d = (shd d, stl d)"

definition ConstantDelay :: "time_ms \<Rightarrow> Delay" where
  "ConstantDelay delay_ms = sconst delay_ms"

subsection \<open>ProcessingBlock\<close>

text \<open>
  The fields \<open>t_hist\<close>, \<open>out_t_hist\<close> and \<open>values_hist\<close> are the attributes \<open>self.t\<close>,
  \<open>self.out_t\<close> and \<open>self.values\<close>; they exist only when the constructor created them
  (\<open>None\<close> is "no such attribute"). \<open>process_impl\<close> is the abstract method \<open>_process\<close>
  that the user's subclass supplies; its second argument stands for \<open>**kwargs\<close>.
\<close>

record ('i, 'k, 'o) ProcessingBlock =
  delay :: "Delay option"
  save_history :: bool
  t_hist :: "time_ms list option"
  out_t_hist :: "time_ms list option"
  values_hist :: "'o list option"
  process_impl :: "'i \<Rightarrow> 'k \<Rightarrow> error + 'o"

text \<open>\<open>ProcessingBlock.__init__\<close>: the keyword arguments \<open>delay\<close> and \<open>save_history\<close>,
  each possibly absent.\<close>

definition ProcessingBlock_init ::
  "('i \<Rightarrow> 'k \<Rightarrow> error + 'o) \<Rightarrow> Delay option \<Rightarrow> bool option
     \<Rightarrow> error + ('i, 'k, 'o) ProcessingBlock" where
  "ProcessingBlock_init impl kw_delay kw_save_history =
     (case kw_delay of
        None \<Rightarrow> Inl (TypeError ''delay must be of the Delay class'')
      | Some d \<Rightarrow>
          (let sh = (case kw_save_history of None \<Rightarrow> False | Some b \<Rightarrow> b) in
           Inr \<lparr> delay = Some d,
                 save_history = sh,
                 t_hist = (if sh then Some [] else None),
                 out_t_hist = (if sh then Some [] else None),
                 values_hist = (if sh then Some [] else None),
                 process_impl = impl \<rparr>))"

text \<open>\<open>append\<close> on an attribute that may not exist.\<close>

definition append_attr :: "string \<Rightarrow> 'a list option \<Rightarrow> 'a \<Rightarrow> error + 'a list" where
  "append_attr name attr x =
     (case attr of None \<Rightarrow> Inl (AttributeError name) | Some xs \<Rightarrow> Inr (xs @ [x]))"

text \<open>
  \<open>ProcessingBlock.process\<close>. The result is the outcome of the call (what it returns, or
  the exception it raises) together with the block as the call leaves it.
\<close>

definition process ::
  "('i, 'k, 'o) ProcessingBlock \<Rightarrow> 'i \<Rightarrow> time_ms \<Rightarrow> 'k
     \<Rightarrow> (error + ('o \<times> time_ms)) \<times> ('i, 'k, 'o) ProcessingBlock" where
  "process self inp in_time_ms kwargs =
     (case process_impl self inp kwargs of
        Inl e \<Rightarrow> (Inl e, self)
      | Inr out \<Rightarrow>
          (let (out_time_ms, self1) =
                 (case delay self of
                    Some d \<Rightarrow> (let (c, d') = compute d
                               in (in_time_ms + c, self\<lparr>delay := Some d'\<rparr>))
                  | None \<Rightarrow> (in_time_ms, self))
           in if save_history self1 then
                (case append_attr ''t'' (t_hist self1) in_time_ms of
                   Inl e \<Rightarrow> (Inl e, self1)
                 | Inr ts \<Rightarrow>
                     (let self2 = self1\<lparr>t_hist := Some ts\<rparr> in
                      case append_attr ''out_t'' (out_t_hist self2) out_time_ms of
                        Inl e \<Rightarrow> (Inl e, self2)
                      | Inr os \<Rightarrow>
                          (let self3 = self2\<lparr>out_t_hist := Some os\<rparr> in
                           case append_attr ''values'' (values_hist self3) out of
                             Inl e \<Rightarrow> (Inl e, self3)
                           | Inr vs \<Rightarrow>
                               (Inr (out, out_time_ms), self3\<lparr>values_hist := Some vs\<rparr>))))
              else (Inr (out, out_time_ms), self1)))"

text \<open>Successive calls of \<open>process\<close> on one block, stopping at the first exception.\<close>

fun process_calls ::
  "('i, 'k, 'o) ProcessingBlock \<Rightarrow> ('i \<times> time_ms \<times> 'k) list
     \<Rightarrow> (error + ('o \<times> time_ms) list) \<times> ('i, 'k, 'o) ProcessingBlock" where
  "process_calls self [] = (Inr [], self)"
| "process_calls self ((inp, in_time_ms, kwargs) # rest) =
     (case process self inp in_time_ms kwargs of
        (Inl e, self') \<Rightarrow> (Inl e, self')
      | (Inr r, self') \<Rightarrow>
          (case process_calls self' rest of
             (Inl e, self'') \<Rightarrow> (Inl e, self'')
           | (Inr rs, self'') \<Rightarrow> (Inr (r # rs), self'')))"

subsection \<open>LatencyIOProcessor\<close>

text \<open>
  \<open>out_buffer\<close> is the deque (head first). \<open>needs_off_schedule_sample\<close> is the attribute
  \<open>_needs_off_schedule_sample\<close>, \<open>None\<close> while it has not been assigned. \<open>process_fn\<close> is
  the abstract method \<open>process\<close> of the user's subclass and \<open>user\<close> the subclass's own
  attributes (its blocks, their delays and histories), which that method may change.
\<close>

record ('s, 'o, 'u) LatencyIOProcessor =
  out_buffer :: "('o \<times> time_ms) list"
  sample_period_ms :: time_ms
  sampling :: string
  processing :: string
  needs_off_schedule_sample :: "bool option"
  process_fn :: "'s \<Rightarrow> time_ms \<Rightarrow> 'u \<Rightarrow> (error + ('o \<times> time_ms)) \<times> 'u"
  user :: 'u

text \<open>\<open>LatencyIOProcessor.__init__\<close>: the keyword arguments \<open>sampling\<close> and
  \<open>processing\<close>, each possibly absent.\<close>

definition LatencyIOProcessor_init ::
  "('s \<Rightarrow> time_ms \<Rightarrow> 'u \<Rightarrow> (error + ('o \<times> time_ms)) \<times> 'u) \<Rightarrow> 'u
     \<Rightarrow> time_ms \<Rightarrow> string option \<Rightarrow> string option
     \<Rightarrow> error + ('s, 'o, 'u) LatencyIOProcessor" where
  "LatencyIOProcessor_init fn u period kw_sampling kw_processing =
     (let smp = (case kw_sampling of None \<Rightarrow> ''fixed'' | Some s \<Rightarrow> s) in
      if smp \<notin> set [''fixed'', ''when idle''] then
        Inl (ValueError ''Invalid sampling scheme:'' smp)
      else
        (let prc = (case kw_processing of None \<Rightarrow> ''parallel'' | Some p \<Rightarrow> p) in
         if prc \<notin> set [''serial'', ''parallel''] then
           Inl (ValueError ''Invalid processing scheme:'' prc)
         else
           Inr \<lparr> out_buffer = [],
                 sample_period_ms = period,
                 sampling = smp,
                 processing = prc,
                 needs_off_schedule_sample = None,
                 process_fn = fn,
                 user = u \<rparr>))"

text \<open>
  \<open>LatencyIOProcessor.put_state\<close>. The serial branch is the source's
  \<open>prev_out_time_ms + out_time_ms - sample_time_ms\<close>, evaluated from left to right in
  float arithmetic.
\<close>

definition put_state ::
  "('s, 'o, 'u) LatencyIOProcessor \<Rightarrow> 's \<Rightarrow> time_ms
     \<Rightarrow> (error + unit) \<times> ('s, 'o, 'u) LatencyIOProcessor" where
  "put_state self state_dict sample_time_ms =
     (case process_fn self state_dict sample_time_ms (user self) of
        (Inl e, u') \<Rightarrow> (Inl e, self\<lparr>user := u'\<rparr>)
      | (Inr (out, out_time_ms), u') \<Rightarrow>
          (let out_time_ms' =
                 (if processing self = ''serial'' \<and> length (out_buffer self) > 0
                  then py_sub (py_add (snd (last (out_buffer self))) out_time_ms)
                         sample_time_ms
                  else out_time_ms)
           in (Inr (),
               self\<lparr> user := u',
                     out_buffer := out_buffer self @ [(out, out_time_ms')],
                     needs_off_schedule_sample := Some False \<rparr>)))"

text \<open>\<open>LatencyIOProcessor.get_ctrl_signal\<close>; \<open>None\<close> is Python's \<open>None\<close>.\<close>

definition get_ctrl_signal ::
  "('s, 'o, 'u) LatencyIOProcessor \<Rightarrow> time_ms
     \<Rightarrow> 'o option \<times> ('s, 'o, 'u) LatencyIOProcessor" where
  "get_ctrl_signal self query_time_ms =
     (case out_buffer self of
        [] \<Rightarrow> (None, self)
      | (next_out_signal, next_out_time_ms) # rest \<Rightarrow>
          if query_time_ms \<ge> next_out_time_ms
          then (Some next_out_signal, self\<lparr>out_buffer := rest\<rparr>)
          else (None, self))"

text \<open>\<open>LatencyIOProcessor._is_currently_idle\<close>.\<close>

definition is_currently_idle :: "('s, 'o, 'u) LatencyIOProcessor \<Rightarrow> time_ms \<Rightarrow> bool" where
  "is_currently_idle self query_time_ms =
     (case out_buffer self of
        [] \<Rightarrow> True
      | (_, next_out_time_ms) # _ \<Rightarrow> next_out_time_ms \<le> query_time_ms)"

text \<open>Python's \<open>x % y\<close> on numbers: the remainder has the sign of \<open>y\<close>, and \<open>y = 0\<close>
  raises.\<close>

definition py_mod :: "real \<Rightarrow> real \<Rightarrow> error + real" where
  "py_mod x y = (if y = 0 then Inl ZeroDivisionError
                 else Inr (x - y * of_int \<lfloor>x / y\<rfloor>))"

text \<open>\<open>numpy.isclose(a, b)\<close> with its default tolerances \<open>rtol = 1e-05\<close>,
  \<open>atol = 1e-08\<close>.\<close>

definition np_isclose :: "real \<Rightarrow> real \<Rightarrow> bool" where
  "np_isclose a b = (\<bar>a - b\<bar> \<le> 1 / 10 ^ 8 + (1 / 10 ^ 5) * \<bar>b\<bar>)"

text \<open>\<open>LatencyIOProcessor.is_sampling_now\<close>.\<close>

definition is_sampling_now ::
  "('s, 'o, 'u) LatencyIOProcessor \<Rightarrow> time_ms
     \<Rightarrow> (error + bool) \<times> ('s, 'o, 'u) LatencyIOProcessor" where
  "is_sampling_now self query_time_ms =
     (if sampling self = ''fixed'' then
        (case py_mod query_time_ms (sample_period_ms self) of
           Inl e \<Rightarrow> (Inl e, self)
         | Inr r \<Rightarrow> if np_isclose r 0 then (Inr True, self) else (Inr False, self))
      else if sampling self = ''when idle'' then
        (case py_mod query_time_ms (sample_period_ms self) of
           Inl e \<Rightarrow> (Inl e, self)
         | Inr r \<Rightarrow>
             if r = 0 then
               (if is_currently_idle self query_time_ms
                then (Inr True, self\<lparr>needs_off_schedule_sample := Some False\<rparr>)
                else (Inr False, self\<lparr>needs_off_schedule_sample := Some True\<rparr>))
             else
               (case needs_off_schedule_sample self of
                  None \<Rightarrow> (Inl (AttributeError ''_needs_off_schedule_sample''), self)
                | Some b \<Rightarrow> (Inr (b \<and> is_currently_idle self query_time_ms), self)))
      else (Inr False, self))"

subsection \<open>Sequences of calls\<close>

text \<open>
  The scheduler only reacts to the calls an external driver makes. A run is a list of
  such calls; \<open>do_call\<close> gives the scheduler as a call leaves it (also when the call
  raised), \<open>do_calls\<close> runs a list of them from left to right.
\<close>

datatype 's call =
    IsSamplingNow time_ms
  | PutState 's time_ms
  | GetCtrlSignal time_ms

fun do_call ::
  "('s, 'o, 'u) LatencyIOProcessor \<Rightarrow> 's call \<Rightarrow> ('s, 'o, 'u) LatencyIOProcessor" where
  "do_call self (IsSamplingNow query_time_ms) = snd (is_sampling_now self query_time_ms)"
| "do_call self (PutState state_dict sample_time_ms) =
     snd (put_state self state_dict sample_time_ms)"
| "do_call self (GetCtrlSignal query_time_ms) = snd (get_ctrl_signal self query_time_ms)"

fun do_calls ::
  "('s, 'o, 'u) LatencyIOProcessor \<Rightarrow> 's call list \<Rightarrow> ('s, 'o, 'u) LatencyIOProcessor" where
  "do_calls self [] = self"
| "do_calls self (c # cs) = do_calls (do_call self c) cs"

text \<open>A query is on schedule when \<open>query_time_ms % sample_period_ms == 0\<close>, the test of
  the "when idle" branch of \<open>is_sampling_now\<close>.\<close>

definition on_schedule :: "('s, 'o, 'u) LatencyIOProcessor \<Rightarrow> time_ms \<Rightarrow> bool" where
  "on_schedule self query_time_ms =
     (case py_mod query_time_ms (sample_period_ms self) of
        Inl _ \<Rightarrow> False
      | Inr r \<Rightarrow> r = 0)"

definition off_schedule :: "('s, 'o, 'u) LatencyIOProcessor \<Rightarrow> time_ms \<Rightarrow> bool" where
  "off_schedule self query_time_ms =
     (case py_mod query_time_ms (sample_period_ms self) of
        Inl _ \<Rightarrow> False
      | Inr r \<Rightarrow> r \<noteq> 0)"

text \<open>A scheduled sample is deferred: the query is on schedule and the scheduler is
  busy.\<close>

definition deferred :: "('s, 'o, 'u) LatencyIOProcessor \<Rightarrow> time_ms \<Rightarrow> bool" where
  "deferred self query_time_ms =
     (on_schedule self query_time_ms \<and> \<not> is_currently_idle self query_time_ms)"

text \<open>A catch-up sample is granted: an off-schedule query is answered \<open>True\<close>.\<close>

definition catch_up :: "('s, 'o, 'u) LatencyIOProcessor \<Rightarrow> time_ms \<Rightarrow> bool" where
  "catch_up self query_time_ms =
     (off_schedule self query_time_ms
      \<and> fst (is_sampling_now self query_time_ms) = Inr True)"

text \<open>The calls a driver makes while it waits for the scheduler to become idle: it
  fetches control signals and asks \<open>is_sampling_now\<close> at times at which the scheduler is
  still busy; it puts no state.\<close>

fun waits :: "('s, 'o, 'u) LatencyIOProcessor \<Rightarrow> 's call list \<Rightarrow> bool" where
  "waits self [] = True"
| "waits self (IsSamplingNow query_time_ms # cs) =
     (\<not> is_currently_idle self query_time_ms
      \<and> waits (do_call self (IsSamplingNow query_time_ms)) cs)"
| "waits self (GetCtrlSignal query_time_ms # cs) =
     waits (do_call self (GetCtrlSignal query_time_ms)) cs"
| "waits self (PutState state_dict sample_time_ms # cs) = False"

text \<open>How many of the queries of a run are deferrals, and how many grant a catch-up
  sample.\<close>

fun deferrals :: "('s, 'o, 'u) LatencyIOProcessor \<Rightarrow> 's call list \<Rightarrow> nat" where
  "deferrals self [] = 0"
| "deferrals self (c # cs) =
     (case c of
        IsSamplingNow query_time_ms \<Rightarrow> (if deferred self query_time_ms then 1 else 0)
      | _ \<Rightarrow> 0)
     + deferrals (do_call self c) cs"

fun catch_ups :: "('s, 'o, 'u) LatencyIOProcessor \<Rightarrow> 's call list \<Rightarrow> nat" where
  "catch_ups self [] = 0"
| "catch_ups self (c # cs) =
     (case c of
        IsSamplingNow query_time_ms \<Rightarrow> (if catch_up self query_time_ms then 1 else 0)
      | _ \<Rightarrow> 0)
     + catch_ups (do_call self c) cs"

text \<open>Every \<open>put_state\<close> call of the run whose \<open>process\<close> returns, returns an output time
  that is not before the sample time.\<close>

fun latency_nonneg :: "('s, 'o, 'u) LatencyIOProcessor \<Rightarrow> 's call list \<Rightarrow> bool" where
  "latency_nonneg self [] = True"
| "latency_nonneg self (c # cs) =
     ((case c of
         PutState state_dict sample_time_ms \<Rightarrow>
           (case fst (process_fn self state_dict sample_time_ms (user self)) of
              Inl _ \<Rightarrow> True
            | Inr (out, out_time_ms) \<Rightarrow> sample_time_ms \<le> out_time_ms)
       | _ \<Rightarrow> True)
      \<and> latency_nonneg (do_call self c) cs)"

text \<open>The output times of the buffered entries, head first.\<close>

definition out_times :: "('s, 'o, 'u) LatencyIOProcessor \<Rightarrow> time_ms list" where
  "out_times self = map snd (out_buffer self)"

subsection \<open>RecordOnlyProcessor\<close>

text \<open>
  \<open>RecordOnlyProcessor.process\<close>: an empty dictionary, due at the sample time. The class
  has no attributes of its own, and its constructor is the parent's.
\<close>

definition RecordOnlyProcessor_process ::
  "(string \<rightharpoonup> real) \<Rightarrow> time_ms \<Rightarrow> unit
     \<Rightarrow> (error + ((string \<rightharpoonup> real) \<times> time_ms)) \<times> unit" where
  "RecordOnlyProcessor_process state_dict sample_time_ms u =
     (Inr (Map.empty, sample_time_ms), u)"

definition RecordOnlyProcessor_init ::
  "time_ms \<Rightarrow> string option \<Rightarrow> string option
     \<Rightarrow> error + (string \<rightharpoonup> real, string \<rightharpoonup> real, unit) LatencyIOProcessor" where
  "RecordOnlyProcessor_init period_ms kw_sampling kw_processing =
     LatencyIOProcessor_init RecordOnlyProcessor_process ()
       period_ms kw_sampling kw_processing"

subsection \<open>The subclasses of the control-loop tests\<close>

text \<open>
  \<open>MyLoopComponent._process\<close> of \<open>tests/control_loop/test_control_loop.py\<close>: the keyword
  argument is \<open>measurement_time\<close>.
\<close>

definition MyLoopComponent_process :: "real \<Rightarrow> time_ms \<Rightarrow> error + real" where
  "MyLoopComponent_process inp measurement_time = Inr (inp + measurement_time)"

text \<open>
  The \<open>process\<close> method of the tests' \<open>MyDelayCL\<close> (\<open>compute_ctrl_signal\<close> there): the
  subclass's own state is its \<open>component\<close>, dictionaries are maps.
\<close>

definition MyDelayCL_process ::
  "(string \<rightharpoonup> real) \<Rightarrow> time_ms \<Rightarrow> (real, time_ms, real) ProcessingBlock
     \<Rightarrow> (error + ((string \<rightharpoonup> real) \<times> time_ms)) \<times> (real, time_ms, real) ProcessingBlock" where
  "MyDelayCL_process state_dict sample_time_ms component =
     (case state_dict ''in'' of
        None \<Rightarrow> (Inl (KeyError ''in''), component)
      | Some inp \<Rightarrow>
          (case process component inp sample_time_ms sample_time_ms of
             (Inl e, component') \<Rightarrow> (Inl e, component')
           | (Inr (out, out_t), component') \<Rightarrow>
               (Inr ([''out'' \<mapsto> out], out_t), component')))"

text \<open>
  \<open>MyDelayCL.__init__\<close> of the tests: the scheduler's constructor with the given period
  and keyword arguments, and a component with a constant delay of 1.199 ms and no
  history. (The source builds the component after the call of the parent's constructor;
  building it cannot fail, so the outcome is the same.)
\<close>

definition MyDelayCL_init ::
  "time_ms \<Rightarrow> string option \<Rightarrow> string option
     \<Rightarrow> error + (string \<rightharpoonup> real, string \<rightharpoonup> real, (real, time_ms, real) ProcessingBlock)
                   LatencyIOProcessor" where
  "MyDelayCL_init sampling_period_ms kw_sampling kw_processing =
     (case ProcessingBlock_init MyLoopComponent_process
             (Some (ConstantDelay (1199 / 1000))) None of
        Inl e \<Rightarrow> Inl e
      | Inr component \<Rightarrow>
          LatencyIOProcessor_init MyDelayCL_process component
            sampling_period_ms kw_sampling kw_processing)"

text \<open>
  The scheduler of the tests with "when idle" sampling and serial processing and a period
  of 1 ms, after the driver's first step at time 0: the sample is due and taken, the
  input is 42.
\<close>

definition MyDelayCL_first_sample ::
  "(string \<rightharpoonup> real, string \<rightharpoonup> real, (real, time_ms, real) ProcessingBlock)
     LatencyIOProcessor" where
  "MyDelayCL_first_sample =
     do_calls (projr (MyDelayCL_init 1 (Some ''when idle'') (Some ''serial'')))
       [IsSamplingNow 0, PutState [''in'' \<mapsto> 42] 0]"

subsection \<open>Invariant of a processing block\<close>

text \<open>When history recording is on, the three logs exist. The constructor establishes
  this and \<open>process\<close> keeps it.\<close>

definition history_ready :: "('i, 'k, 'o) ProcessingBlock \<Rightarrow> bool" where
  "history_ready self =
     (save_history self \<longrightarrow>
        t_hist self \<noteq> None \<and> out_t_hist self \<noteq> None \<and> values_hist self \<noteq> None)"

section \<open>Delivery: \<open>get_ctrl_signal\<close>\<close>

lemma get_ctrl_signal_empty:
  "out_buffer self = [] \<Longrightarrow> get_ctrl_signal self q = (None, self)"
  by (simp add: get_ctrl_signal_def)

lemma get_ctrl_signal_ready:
  "out_buffer self = (out, ot) # rest \<Longrightarrow> ot \<le> q
     \<Longrightarrow> get_ctrl_signal self q = (Some out, self\<lparr>out_buffer := rest\<rparr>)"
  by (simp add: get_ctrl_signal_def)

lemma get_ctrl_signal_early:
  "out_buffer self = (out, ot) # rest \<Longrightarrow> q < ot
     \<Longrightarrow> get_ctrl_signal self q = (None, self)"
  by (simp add: get_ctrl_signal_def)

text \<open>
  Claim C1. \<open>get_ctrl_signal(t)\<close> returns the head entry's output and removes exactly
  that entry if and only if the buffer is non-empty and \<open>t\<close> is at least the head's output
  time; in every other case it returns none and leaves the scheduler unchanged. A
  returned value never has an output time after \<open>t\<close>, and the entries behind the head
  neither influence the answer nor are touched.
\<close>

theorem get_ctrl_signal_head_only:
  "(case get_ctrl_signal self q of
      (Some out, self') \<Rightarrow>
         (\<exists>ot rest. out_buffer self = (out, ot) # rest \<and> ot \<le> q
                    \<and> self' = self\<lparr>out_buffer := rest\<rparr>)
    | (None, self') \<Rightarrow>
         self' = self
         \<and> (out_buffer self = [] \<or> q < snd (hd (out_buffer self))))
   \<and> ((\<exists>out self'. get_ctrl_signal self q = (Some out, self'))
        \<longleftrightarrow> (out_buffer self \<noteq> [] \<and> snd (hd (out_buffer self)) \<le> q))
   \<and> (\<forall>e rest rest'.
         out_buffer self = e # rest \<longrightarrow>
           fst (get_ctrl_signal (self\<lparr>out_buffer := e # rest'\<rparr>) q)
             = fst (get_ctrl_signal self q)
           \<and> out_buffer (snd (get_ctrl_signal self q)) \<in> {rest, e # rest})"
  by (cases "out_buffer self")
     (auto simp: get_ctrl_signal_def split: prod.splits option.splits)

theorem get_ctrl_signal_head_only_witness:
  "map_option (\<lambda>out. out ''out'') (fst (get_ctrl_signal
          (do_calls (projr (MyDelayCL_init 1 None (Some ''parallel'')))
             [PutState [''in'' \<mapsto> 42] 0, PutState [''in'' \<mapsto> 66] 1]) (12 / 10)))
     = Some (Some 42)
   \<and> out_times (snd (get_ctrl_signal
          (do_calls (projr (MyDelayCL_init 1 None (Some ''parallel'')))
             [PutState [''in'' \<mapsto> 42] 0, PutState [''in'' \<mapsto> 66] 1]) (12 / 10)))
     = [2199 / 1000]
   \<and> get_ctrl_signal
          (do_calls (projr (MyDelayCL_init 1 None (Some ''parallel'')))
             [PutState [''in'' \<mapsto> 42] 0, PutState [''in'' \<mapsto> 66] 1]) 1
     = (None, do_calls (projr (MyDelayCL_init 1 None (Some ''parallel'')))
                [PutState [''in'' \<mapsto> 42] 0, PutState [''in'' \<mapsto> 66] 1])"
  using get_ctrl_signal_head_only
          [of "do_calls (projr (MyDelayCL_init 1 None (Some ''parallel'')))
                 [PutState [''in'' \<mapsto> 42] 0, PutState [''in'' \<mapsto> 66] 1]" "12 / 10"]
        get_ctrl_signal_head_only
          [of "do_calls (projr (MyDelayCL_init 1 None (Some ''parallel'')))
                 [PutState [''in'' \<mapsto> 42] 0, PutState [''in'' \<mapsto> 66] 1]" 1]
  by (simp add: MyDelayCL_init_def ProcessingBlock_init_def LatencyIOProcessor_init_def
        put_state_def MyDelayCL_process_def process_def compute_def ConstantDelay_def
        MyLoopComponent_process_def get_ctrl_signal_def out_times_def)

section \<open>Processing blocks\<close>

lemma ProcessingBlock_init_ready:
  "ProcessingBlock_init impl (Some d) kw_sh = Inr b
     \<Longrightarrow> delay b = Some d \<and> history_ready b \<and> process_impl b = impl
         \<and> save_history b = (kw_sh = Some True)"
  by (cases kw_sh) (auto simp: ProcessingBlock_init_def history_ready_def Let_def)

lemma process_returns:
  assumes "history_ready self" and "process_impl self inp kw = Inr out"
  shows "fst (process self inp t kw)
           = Inr (out, case delay self of None \<Rightarrow> t | Some d \<Rightarrow> t + fst (compute d))"
  using assms
  by (auto simp: process_def history_ready_def append_attr_def compute_def Let_def
           split: option.splits)

lemma process_raises:
  assumes "process_impl self inp kw = Inl e"
  shows "process self inp t kw = (Inl e, self)"
  using assms by (simp add: process_def)

lemma process_keeps:
  assumes "history_ready self"
  shows "history_ready (snd (process self inp t kw))
       \<and> save_history (snd (process self inp t kw)) = save_history self
       \<and> process_impl (snd (process self inp t kw)) = process_impl self
       \<and> (delay (snd (process self inp t kw)) = None \<longleftrightarrow> delay self = None)"
  using assms
  by (auto simp: process_def history_ready_def append_attr_def compute_def Let_def
           split: option.splits sum.splits)

lemma process_appends:
  assumes "save_history self" and "t_hist self = Some ts" and "out_t_hist self = Some os"
    and "values_hist self = Some vs" and "process self inp t kw = (Inr (out, ot), self')"
  shows "save_history self' \<and> t_hist self' = Some (ts @ [t])
       \<and> out_t_hist self' = Some (os @ [ot]) \<and> values_hist self' = Some (vs @ [out])"
  using assms
  by (auto simp: process_def append_attr_def compute_def Let_def
           split: option.splits sum.splits)

lemma process_calls_appends:
  assumes "save_history self" and "t_hist self = Some ts" and "out_t_hist self = Some os"
    and "values_hist self = Some vs" and "process_calls self cs = (Inr rs, self')"
  shows "save_history self' \<and> length rs = length cs
       \<and> t_hist self' = Some (ts @ map (fst \<circ> snd) cs)
       \<and> out_t_hist self' = Some (os @ map snd rs)
       \<and> values_hist self' = Some (vs @ map fst rs)"
  using assms
proof (induction cs arbitrary: self ts os vs rs)
  case Nil
  then show ?case by simp
next
  case (Cons c cs)
  obtain inp t kw where c: "c = (inp, t, kw)" by (cases c)
  from Cons.prems(5) c obtain r self1 rs1 where
    p: "process self inp t kw = (Inr r, self1)" and
    q: "process_calls self1 cs = (Inr rs1, self')" and rs: "rs = r # rs1"
    by (auto split: prod.splits sum.splits)
  obtain out ot where r: "r = (out, ot)" by (cases r)
  from process_appends[OF Cons.prems(1-4) p[unfolded r]]
  have s1: "save_history self1" "t_hist self1 = Some (ts @ [t])"
    "out_t_hist self1 = Some (os @ [ot])" "values_hist self1 = Some (vs @ [out])"
    by simp_all
  from Cons.IH[OF s1 q] show ?case by (simp add: c rs r)
qed

lemma process_calls_total:
  assumes "history_ready self"
    and "\<forall>c \<in> set cs. \<not> isl (process_impl self (fst c) (snd (snd c)))"
  shows "\<not> isl (fst (process_calls self cs))"
  using assms
proof (induction cs arbitrary: self)
  case Nil
  then show ?case by simp
next
  case (Cons c cs)
  obtain inp t kw where c: "c = (inp, t, kw)" by (cases c)
  from Cons.prems(2) c obtain out where o: "process_impl self inp kw = Inr out"
    by (cases "process_impl self inp kw") auto
  obtain r self1 where p: "process self inp t kw = (r, self1)"
    by (cases "process self inp t kw")
  from process_returns[OF Cons.prems(1) o, of t] p obtain v where r: "r = Inr v" by auto
  from process_keeps[OF Cons.prems(1), of inp t kw] p
  have k: "history_ready self1" "process_impl self1 = process_impl self" by auto
  from Cons.prems(2) k have "\<forall>c \<in> set cs. \<not> isl (process_impl self1 (fst c) (snd (snd c)))"
    by simp
  from Cons.IH[OF k(1) this] show ?case
    by (auto simp: c p r split: prod.splits sum.splits)
qed




text \<open>
  Claim C9. On a block constructed with history recording enabled, every call of
  \<open>process\<close> that returns appends the input time, the output time and the output value to
  the three logs, whatever the output value is; a call in which the transform raises
  leaves the block as it was. After \<open>n\<close> calls the three logs have length \<open>n\<close> and hold the
  input times, output times and outputs of the calls in order. The calls all return when
  the transform returns on each input.
\<close>

theorem history_logs:
  assumes "ProcessingBlock_init impl (Some d) (Some True) = Inr b"
  shows "(process_calls b cs = (Inr rs, b') \<longrightarrow>
            length rs = length cs
          \<and> t_hist b' = Some (map (fst \<circ> snd) cs)
          \<and> out_t_hist b' = Some (map snd rs)
          \<and> values_hist b' = Some (map fst rs)
          \<and> map_option length (t_hist b') = Some (length cs)
          \<and> map_option length (out_t_hist b') = Some (length cs)
          \<and> map_option length (values_hist b') = Some (length cs))
       \<and> ((\<forall>c \<in> set cs. \<not> isl (impl (fst c) (snd (snd c))))
            \<longrightarrow> \<not> isl (fst (process_calls b cs)))
       \<and> (impl inp kw = Inl e \<longrightarrow> process b inp t kw = (Inl e, b))"
proof -
  from assms have b: "save_history b" "t_hist b = Some []" "out_t_hist b = Some []"
    "values_hist b = Some []" "process_impl b = impl"
    by (auto simp: ProcessingBlock_init_def)
  have r: "history_ready b" using b(1-4) by (simp add: history_ready_def)
  have "length rs = length cs
          \<and> t_hist b' = Some (map (fst \<circ> snd) cs)
          \<and> out_t_hist b' = Some (map snd rs)
          \<and> values_hist b' = Some (map fst rs)
          \<and> map_option length (t_hist b') = Some (length cs)
          \<and> map_option length (out_t_hist b') = Some (length cs)
          \<and> map_option length (values_hist b') = Some (length cs)"
    if "process_calls b cs = (Inr rs, b')"
    using process_calls_appends[OF b(1-4) that] by simp
  moreover have "\<not> isl (fst (process_calls b cs))"
    if "\<forall>c \<in> set cs. \<not> isl (impl (fst c) (snd (snd c)))"
    using process_calls_total[OF r] that b(5) by simp
  moreover have "process b inp t kw = (Inl e, b)" if "impl inp kw = Inl e"
    using process_raises[of b inp kw e t] that b(5) by simp
  ultimately show ?thesis by blast
qed

theorem history_logs_witness:
  "t_hist (snd (process_calls
       (projr (ProcessingBlock_init MyLoopComponent_process (Some (ConstantDelay 5)) (Some True)))
       [(42, 2, 1), (- 1, 9, 8)])) = Some [2, 9]
   \<and> out_t_hist (snd (process_calls
       (projr (ProcessingBlock_init MyLoopComponent_process (Some (ConstantDelay 5)) (Some True)))
       [(42, 2, 1), (- 1, 9, 8)])) = Some [7, 14]
   \<and> values_hist (snd (process_calls
       (projr (ProcessingBlock_init MyLoopComponent_process (Some (ConstantDelay 5)) (Some True)))
       [(42, 2, 1), (- 1, 9, 8)])) = Some [43, 7]"
proof -
  let ?b = "projr (ProcessingBlock_init MyLoopComponent_process
                     (Some (ConstantDelay 5)) (Some True))"
  let ?cs = "[(42, 2, 1), (- 1, 9, 8)] :: (real \<times> time_ms \<times> time_ms) list"
  have h: "ProcessingBlock_init MyLoopComponent_process (Some (ConstantDelay 5)) (Some True)
             = Inr ?b"
    by (simp add: ProcessingBlock_init_def)
  have c: "process_calls ?b ?cs = (Inr [(43, 7), (7, 14)], snd (process_calls ?b ?cs))"
    by (simp add: ProcessingBlock_init_def process_def compute_def ConstantDelay_def
          MyLoopComponent_process_def append_attr_def)
  from history_logs[OF h, of ?cs "[(43, 7), (7, 14)]" "snd (process_calls ?b ?cs)"] c
  show ?thesis by simp
qed

section \<open>Construction of the scheduler\<close>

lemmas scenario_defs = MyDelayCL_first_sample_def MyDelayCL_init_def ProcessingBlock_init_def
  LatencyIOProcessor_init_def put_state_def MyDelayCL_process_def process_def compute_def
  ConstantDelay_def MyLoopComponent_process_def get_ctrl_signal_def out_times_def
  is_sampling_now_def py_mod_def np_isclose_def is_currently_idle_def deferred_def
  on_schedule_def off_schedule_def catch_up_def

text \<open>
  Claim C4, as the code has it. The constructor validates the two policies only: a
  sampling policy outside "fixed"/"when idle" raises \<open>ValueError\<close>, otherwise a processing
  policy outside "serial"/"parallel" raises \<open>ValueError\<close>, and nothing defaults silently
  (the defaults apply to absent keywords only). The sample period is not validated: for
  valid policies construction succeeds for every period, positive or not, and stores the
  given period and policies with an empty buffer.
\<close>

theorem LatencyIOProcessor_init_validation:
  "(let smp = (case kw_sampling of None \<Rightarrow> ''fixed'' | Some s \<Rightarrow> s);
        prc = (case kw_processing of None \<Rightarrow> ''parallel'' | Some p \<Rightarrow> p);
        r = LatencyIOProcessor_init fn u period kw_sampling kw_processing
    in (smp \<notin> {''fixed'', ''when idle''}
          \<longrightarrow> r = Inl (ValueError ''Invalid sampling scheme:'' smp))
     \<and> (smp \<in> {''fixed'', ''when idle''} \<and> prc \<notin> {''serial'', ''parallel''}
          \<longrightarrow> r = Inl (ValueError ''Invalid processing scheme:'' prc))
     \<and> (smp \<in> {''fixed'', ''when idle''} \<and> prc \<in> {''serial'', ''parallel''}
          \<longrightarrow> (\<exists>self. r = Inr self
                 \<and> sample_period_ms self = period
                 \<and> sampling self = smp
                 \<and> processing self = prc
                 \<and> out_buffer self = []
                 \<and> needs_off_schedule_sample self = None
                 \<and> process_fn self = fn
                 \<and> user self = u)))"
  by (simp add: LatencyIOProcessor_init_def Let_def)

theorem LatencyIOProcessor_init_validation_witness:
  "LatencyIOProcessor_init MyDelayCL_process
       (projr (ProcessingBlock_init MyLoopComponent_process (Some (ConstantDelay 1)) None))
       1 (Some ''wait for computation'') (Some ''serial'')
     = Inl (ValueError ''Invalid sampling scheme:'' ''wait for computation'')
   \<and> LatencyIOProcessor_init MyDelayCL_process
       (projr (ProcessingBlock_init MyLoopComponent_process (Some (ConstantDelay 1)) None))
       1 None (Some ''sequential'')
     = Inl (ValueError ''Invalid processing scheme:'' ''sequential'')
   \<and> (\<exists>self. LatencyIOProcessor_init MyDelayCL_process
       (projr (ProcessingBlock_init MyLoopComponent_process (Some (ConstantDelay 1)) None))
       (- 1) (Some ''when idle'') None = Inr self
       \<and> sample_period_ms self = - 1 \<and> sampling self = ''when idle''
       \<and> processing self = ''parallel'')"
  using LatencyIOProcessor_init_validation
          [of "Some ''wait for computation''" "Some ''serial''" MyDelayCL_process
              "projr (ProcessingBlock_init MyLoopComponent_process
                        (Some (ConstantDelay 1)) None)" 1]
        LatencyIOProcessor_init_validation
          [of None "Some ''sequential''" MyDelayCL_process
              "projr (ProcessingBlock_init MyLoopComponent_process
                        (Some (ConstantDelay 1)) None)" 1]
        LatencyIOProcessor_init_validation
          [of "Some ''when idle''" None MyDelayCL_process
              "projr (ProcessingBlock_init MyLoopComponent_process
                        (Some (ConstantDelay 1)) None)" "- 1"]
  by (auto simp: Let_def)

theorem LatencyIOProcessor_init_period_counterexample:
  "\<not> isl (MyDelayCL_init (- 1) (Some ''fixed'') (Some ''parallel''))
   \<and> sample_period_ms (projr (MyDelayCL_init (- 1) (Some ''fixed'') (Some ''parallel''))) = - 1
   \<and> \<not> isl (MyDelayCL_init 0 None None)
   \<and> sample_period_ms (projr (MyDelayCL_init 0 None None)) = 0"
  by (simp add: MyDelayCL_init_def ProcessingBlock_init_def LatencyIOProcessor_init_def)

text \<open>
  Claim C10. On a scheduler constructed with "when idle" sampling, a first call of
  \<open>is_sampling_now\<close> at a query time off the schedule (\<open>query_time_ms % sample_period_ms\<close>
  evaluates to a non-zero remainder) raises \<open>AttributeError\<close> instead of returning a
  boolean: the constructor never assigns \<open>_needs_off_schedule_sample\<close>, and the
  off-schedule branch reads it. The scheduler is left as it was.
\<close>

theorem is_sampling_now_attribute_error:
  "LatencyIOProcessor_init fn u period (Some ''when idle'') kw_processing = Inr self
   \<Longrightarrow> off_schedule self q
   \<Longrightarrow> needs_off_schedule_sample self = None
     \<and> is_sampling_now self q
        = (Inl (AttributeError ''_needs_off_schedule_sample''), self)"
  by (auto simp: LatencyIOProcessor_init_def Let_def is_sampling_now_def off_schedule_def
           split: if_splits sum.splits)

theorem is_sampling_now_attribute_error_witness:
  "off_schedule (projr (MyDelayCL_init 1 (Some ''when idle'') None)) (1 / 2)
   \<and> fst (is_sampling_now (projr (MyDelayCL_init 1 (Some ''when idle'') None)) (1 / 2))
       = Inl (AttributeError ''_needs_off_schedule_sample'')"
proof -
  let ?b = "projr (ProcessingBlock_init MyLoopComponent_process
                     (Some (ConstantDelay (1199 / 1000))) None)"
  let ?s = "projr (MyDelayCL_init 1 (Some ''when idle'') None)"
  have h1: "LatencyIOProcessor_init MyDelayCL_process ?b 1 (Some ''when idle'') None = Inr ?s"
    by (simp add: MyDelayCL_init_def ProcessingBlock_init_def LatencyIOProcessor_init_def)
  have h2: "off_schedule ?s (1 / 2)"
    by (simp add: MyDelayCL_init_def ProcessingBlock_init_def LatencyIOProcessor_init_def
          off_schedule_def py_mod_def)
  from is_sampling_now_attribute_error[OF h1 h2] h2 show ?thesis by simp
qed

section \<open>Ingestion: \<open>put_state\<close>\<close>

lemma put_state_keeps_config:
  "sampling (snd (put_state self st t)) = sampling self
   \<and> processing (snd (put_state self st t)) = processing self
   \<and> sample_period_ms (snd (put_state self st t)) = sample_period_ms self
   \<and> process_fn (snd (put_state self st t)) = process_fn self"
  by (auto simp: put_state_def Let_def split: prod.splits sum.splits)

lemma get_ctrl_signal_keeps_config:
  "sampling (snd (get_ctrl_signal self q)) = sampling self
   \<and> processing (snd (get_ctrl_signal self q)) = processing self
   \<and> sample_period_ms (snd (get_ctrl_signal self q)) = sample_period_ms self
   \<and> process_fn (snd (get_ctrl_signal self q)) = process_fn self
   \<and> user (snd (get_ctrl_signal self q)) = user self
   \<and> needs_off_schedule_sample (snd (get_ctrl_signal self q))
       = needs_off_schedule_sample self"
  by (auto simp: get_ctrl_signal_def split: list.splits)

lemma is_sampling_now_keeps_config:
  "sampling (snd (is_sampling_now self q)) = sampling self
   \<and> processing (snd (is_sampling_now self q)) = processing self
   \<and> sample_period_ms (snd (is_sampling_now self q)) = sample_period_ms self
   \<and> process_fn (snd (is_sampling_now self q)) = process_fn self
   \<and> user (snd (is_sampling_now self q)) = user self
   \<and> out_buffer (snd (is_sampling_now self q)) = out_buffer self"
  by (auto simp: is_sampling_now_def split: sum.splits option.splits)

lemma do_call_keeps_config:
  "sampling (do_call self c) = sampling self
   \<and> processing (do_call self c) = processing self
   \<and> sample_period_ms (do_call self c) = sample_period_ms self
   \<and> process_fn (do_call self c) = process_fn self"
  by (cases c)
     (simp_all add: put_state_keeps_config get_ctrl_signal_keeps_config
        is_sampling_now_keeps_config)



text \<open>
  Claim C8. \<open>put_state\<close> is atomic with respect to the buffer. If the user's \<open>process\<close>
  raises, \<open>put_state\<close> raises the same exception and leaves the output buffer and the
  missed-sample flag exactly as they were; if \<open>process\<close> returns, \<open>put_state\<close> returns and
  the buffer is the old one with exactly one entry appended, holding the returned output.
\<close>

theorem put_state_atomic:
  "(process_fn self state_dict s (user self) = (Inl e, u')
      \<longrightarrow> put_state self state_dict s = (Inl e, self\<lparr>user := u'\<rparr>)
        \<and> out_buffer (snd (put_state self state_dict s)) = out_buffer self
        \<and> needs_off_schedule_sample (snd (put_state self state_dict s))
            = needs_off_schedule_sample self)
   \<and> (process_fn self state_dict s (user self) = (Inr (out, out_time), u')
      \<longrightarrow> fst (put_state self state_dict s) = Inr ()
        \<and> (\<exists>t. out_buffer (snd (put_state self state_dict s))
                  = out_buffer self @ [(out, t)])
        \<and> length (out_buffer (snd (put_state self state_dict s)))
            = Suc (length (out_buffer self)))"
  by (auto simp: put_state_def Let_def)

theorem put_state_atomic_witness:
  "fst (put_state MyDelayCL_first_sample Map.empty 1) = Inl (KeyError ''in'')
   \<and> out_buffer (snd (put_state MyDelayCL_first_sample Map.empty 1))
       = out_buffer MyDelayCL_first_sample
   \<and> needs_off_schedule_sample (snd (put_state MyDelayCL_first_sample Map.empty 1))
       = needs_off_schedule_sample MyDelayCL_first_sample
   \<and> fst (put_state MyDelayCL_first_sample [''in'' \<mapsto> 66] 1) = Inr ()
   \<and> length (out_buffer (snd (put_state MyDelayCL_first_sample [''in'' \<mapsto> 66] 1))) = 2"
proof -
  let ?s = "MyDelayCL_first_sample"
  have h1: "process_fn ?s Map.empty 1 (user ?s) = (Inl (KeyError ''in''), user ?s)"
    by (simp add: scenario_defs)
  have h2: "process_fn ?s [''in'' \<mapsto> 66] 1 (user ?s)
              = (Inr ([''out'' \<mapsto> 67], 2199 / 1000),
                 snd (process_fn ?s [''in'' \<mapsto> 66] 1 (user ?s)))"
    by (simp add: scenario_defs)
  have l: "length (out_buffer ?s) = 1"
    by (simp add: scenario_defs)
  from put_state_atomic[where self = ?s and state_dict = Map.empty and s = 1
          and e = "KeyError ''in''" and u' = "user ?s"] h1
       put_state_atomic[where self = ?s and state_dict = "[''in'' \<mapsto> 66]" and s = 1
          and out = "[''out'' \<mapsto> 67]" and out_time = "2199 / 1000"
          and u' = "snd (process_fn ?s [''in'' \<mapsto> 66] 1 (user ?s))"] h2 l
  show ?thesis by simp
qed

text \<open>
  The rounding is the one intended: \<open>ilog2\<close> finds the binade of a positive number, and
  \<open>binary64 x\<close> is a multiple of the spacing there that lies within half a spacing of
  \<open>x\<close>.
\<close>

lemma bit_length_bounds:
  "0 < n \<Longrightarrow> 2 ^ (bit_length n - 1) \<le> n \<and> n < 2 ^ bit_length n"
proof (induction n rule: bit_length.induct)
  case (1 n)
  show ?case
  proof (cases "n div 2 = 0")
    case True
    with "1.prems" have "n = 1" by (simp add: div_eq_0_iff)
    then show ?thesis by (simp add: bit_length.simps)
  next
    case False
    then have pos: "0 < n div 2" by simp
    from "1.IH" "1.prems" pos
    have ih: "2 ^ (bit_length (n div 2) - 1) \<le> n div 2" "n div 2 < 2 ^ bit_length (n div 2)"
      by simp_all
    have bl: "bit_length n = Suc (bit_length (n div 2))"
      using "1.prems" by (subst bit_length.simps) simp
    have p: "0 < bit_length (n div 2)"
      using pos by (subst bit_length.simps) simp
    have "2 ^ (bit_length n - 1) = 2 * 2 ^ (bit_length (n div 2) - 1)"
      using p bl by (cases "bit_length (n div 2)") simp_all
    also have "\<dots> \<le> 2 * (n div 2)" using ih(1) by simp
    also have "\<dots> \<le> n" by simp
    finally have lo: "2 ^ (bit_length n - 1) \<le> n" .
    have "n < 2 * (n div 2 + 1)" by presburger
    also have "\<dots> \<le> 2 * 2 ^ bit_length (n div 2)" using ih(2) by simp
    finally have "n < 2 ^ bit_length n" using bl by simp
    with lo show ?thesis by simp
  qed
qed


lemma ilog2_bounds:
  assumes "0 < a"
  shows "pow2 (ilog2 a) \<le> a \<and> a < pow2 (ilog2 a + 1)"
proof (cases "1 \<le> a")
  case True
  define n where "n = nat \<lfloor>a\<rfloor>"
  have n: "0 < n" "real n \<le> a" "a < real n + 1"
    using True by (auto simp: n_def)
  from bit_length_bounds[OF n(1)]
  have b: "2 ^ (bit_length n - 1) \<le> n" "n < 2 ^ bit_length n" by simp_all
  have k: "0 < bit_length n" using n(1) by (subst bit_length.simps) simp
  have e: "ilog2 a = int (bit_length n) - 1" using True by (simp add: ilog2_def n_def)
  have "real (2 ^ (bit_length n - 1)) \<le> real n" using b(1) by (rule of_nat_mono)
  then have lo: "(2::real) ^ (bit_length n - 1) \<le> real n" by simp
  have "Suc n \<le> 2 ^ bit_length n" using b(2) by simp
  then have "real (Suc n) \<le> real (2 ^ bit_length n)" by (rule of_nat_mono)
  then have "real n + 1 \<le> 2 ^ bit_length n" by simp
  with n(3) have hi: "a < 2 ^ bit_length n" by linarith
  have lo2: "2 ^ (bit_length n - 1) \<le> a" using lo n(2) by linarith
  have "nat (int (bit_length n) - 1) = bit_length n - 1" by simp
  then have e1: "pow2 (ilog2 a) = 2 ^ (bit_length n - 1)"
    using k by (simp add: e pow2_def)
  have e2: "pow2 (ilog2 a + 1) = 2 ^ bit_length n"
    by (simp add: e pow2_def)
  show ?thesis using lo2 hi by (simp only: e1 e2)
next
  case False
  define m where "m = nat (\<lceil>1 / a\<rceil> - 1)"
  have y: "1 < 1 / a" using False assms by simp
  then have c: "2 \<le> \<lceil>1 / a\<rceil>" by linarith
  have z: "0 \<le> \<lceil>1 / a\<rceil> - 1" using c by linarith
  have "real m = of_int (\<lceil>1 / a\<rceil> - 1)"
    unfolding m_def using z by (rule of_nat_nat)
  then have rm: "real m = of_int \<lceil>1 / a\<rceil> - 1" by simp
  have m: "0 < m" "real m < 1 / a" "1 / a \<le> real m + 1"
  proof -
    show "0 < m" unfolding m_def using c by linarith
    show "real m < 1 / a" unfolding rm by linarith
    show "1 / a \<le> real m + 1" unfolding rm by linarith
  qed
  from bit_length_bounds[OF m(1)]
  have b: "2 ^ (bit_length m - 1) \<le> m" "m < 2 ^ bit_length m" by simp_all
  have k: "0 < bit_length m" using m(1) by (subst bit_length.simps) simp
  have e: "ilog2 a = - int (bit_length m)" using False by (simp add: ilog2_def m_def)
  have "real (2 ^ (bit_length m - 1)) \<le> real m" using b(1) by (rule of_nat_mono)
  then have "(2::real) ^ (bit_length m - 1) \<le> real m" by simp
  with m(2) have lo: "2 ^ (bit_length m - 1) < 1 / a" by linarith
  have "Suc m \<le> 2 ^ bit_length m" using b(2) by simp
  then have "real (Suc m) \<le> real (2 ^ bit_length m)" by (rule of_nat_mono)
  then have "real m + 1 \<le> 2 ^ bit_length m" by simp
  with m(3) have hi: "1 / a \<le> 2 ^ bit_length m" by linarith
  have p1: "1 / 2 ^ bit_length m \<le> a"
    using hi assms by (simp add: field_simps)
  have p2: "a < 1 / 2 ^ (bit_length m - 1)"
    using lo assms by (simp add: field_simps)
  have "pow2 (- int (bit_length m)) = 1 / 2 ^ bit_length m"
    using k by (simp add: pow2_def)
  moreover have "pow2 (- int (bit_length m) + 1) = 1 / 2 ^ (bit_length m - 1)"
  proof (cases "bit_length m = 1")
    case True
    then show ?thesis by (simp add: pow2_def)
  next
    case False
    with k have "1 < bit_length m" by simp
    then have "nat (int (bit_length m) - 1) = bit_length m - 1"
      and "\<not> 0 \<le> - int (bit_length m) + 1" by simp_all
    then show ?thesis by (simp add: pow2_def)
  qed
  ultimately show ?thesis using p1 p2 by (simp add: e)
qed


lemma pow2_pos: "0 < pow2 k"
  by (simp add: pow2_def)

lemma round_half_even_nearest: "\<bar>of_int (round_half_even y) - y\<bar> \<le> 1 / 2"
proof -
  have "of_int \<lfloor>y\<rfloor> \<le> y" "y < of_int \<lfloor>y\<rfloor> + 1" by linarith+
  then show ?thesis by (auto simp: round_half_even_def Let_def)
qed

lemma binary64_nearest:
  assumes "x \<noteq> 0"
  shows "\<bar>binary64 x - x\<bar> \<le> pow2 (max (ilog2 \<bar>x\<bar>) (- 1022) - 52) / 2"
proof -
  define u where "u = pow2 (max (ilog2 \<bar>x\<bar>) (- 1022) - 52)"
  have u: "0 < u" by (simp add: u_def pow2_pos)
  have b: "binary64 x = of_int (round_half_even (x / u)) * u"
    using assms by (simp add: binary64_def u_def Let_def)
  have "binary64 x - x = (of_int (round_half_even (x / u)) - x / u) * u"
    using u by (simp add: b field_simps)
  then have "\<bar>binary64 x - x\<bar> = \<bar>of_int (round_half_even (x / u)) - x / u\<bar> * u"
    using u by (simp add: abs_mult)
  also have "\<dots> \<le> (1 / 2) * u"
    using round_half_even_nearest[of "x / u"] u by (intro mult_right_mono) simp_all
  finally show ?thesis by (simp add: u_def)
qed

lemma put_state_serial_entry:
  assumes "processing self = ''serial''"
    and "process_fn self st t (user self) = (Inr (out, ot), u')"
  shows "out_buffer (snd (put_state self st t))
           = out_buffer self
             @ [(out, if out_buffer self = [] then ot
                      else py_sub (py_add (snd (last (out_buffer self))) ot) t)]"
  using assms by (auto simp: put_state_def Let_def)

lemmas float_defs = binary64_def ilog2_def pow2_def round_half_even_def py_add_def
  py_sub_def bit_length.simps Let_def

text \<open>The float literals \<open>0.1\<close> and \<open>0.7\<close>, and the sums and differences of the run
  below.\<close>

lemma binary64_literals:
  "binary64 (1 / 10) = 3602879701896397 / 36028797018963968"
  "binary64 (7 / 10) = 3152519739159347 / 4503599627370496"
  by (simp_all add: float_defs)

lemma serial_sum_then_difference:
  "py_add (3602879701896397 / 36028797018963968) (3152519739159347 / 4503599627370496)
     = 7205759403792793 / 9007199254740992"
  "py_sub (7205759403792793 / 9007199254740992) (3152519739159347 / 4503599627370496)
     = 900719925474099 / 9007199254740992"
  by (simp_all add: float_defs)

lemma serial_delay_then_sum:
  "py_sub (3152519739159347 / 4503599627370496) (3152519739159347 / 4503599627370496) = 0"
  "py_add (3602879701896397 / 36028797018963968) 0 = 3602879701896397 / 36028797018963968"
  by (simp_all add: float_defs)

text \<open>
  Claim C5 says that under "serial" processing the appended entry's output time is the
  previous entry's output time plus this sample's delay, hence never before it when
  \<open>out_time \<ge> sample_time\<close>. The code does not keep this. A \<open>RecordOnlyProcessor\<close> with
  serial processing that is given samples at \<open>0.1\<close> and at \<open>0.7\<close> returns
  \<open>out_time = sample_time\<close> for both, so the condition holds with a delay of zero; the
  first entry is buffered for \<open>0.1\<close>, and for the second the code evaluates
  \<open>(0.1 + 0.7) - 0.7\<close> in floats, which is \<open>0.09999999999999998\<close>: the second entry is
  due before the first. Adding the sample's delay \<open>0.7 - 0.7\<close> onto the previous output
  time, as the docstring and the comment in \<open>put_state\<close> describe, gives \<open>0.1\<close>.
\<close>

theorem put_state_serial_rounding:
  "latency_nonneg (projr (RecordOnlyProcessor_init 1 None (Some ''serial'')))
     [PutState Map.empty (binary64 (1 / 10)), PutState Map.empty (binary64 (7 / 10))]
   \<and> out_times (do_calls (projr (RecordOnlyProcessor_init 1 None (Some ''serial'')))
        [PutState Map.empty (binary64 (1 / 10)), PutState Map.empty (binary64 (7 / 10))])
     = [3602879701896397 / 36028797018963968, 900719925474099 / 9007199254740992]
   \<and> out_times (do_calls (projr (RecordOnlyProcessor_init 1 None (Some ''serial'')))
        [PutState Map.empty (binary64 (1 / 10)), PutState Map.empty (binary64 (7 / 10))]) ! 1
     < out_times (do_calls (projr (RecordOnlyProcessor_init 1 None (Some ''serial'')))
        [PutState Map.empty (binary64 (1 / 10)), PutState Map.empty (binary64 (7 / 10))]) ! 0
   \<and> py_add (binary64 (1 / 10)) (py_sub (binary64 (7 / 10)) (binary64 (7 / 10)))
     = binary64 (1 / 10)"
  by (simp add: RecordOnlyProcessor_init_def LatencyIOProcessor_init_def put_state_def
        RecordOnlyProcessor_process_def out_times_def binary64_literals
        serial_sum_then_difference serial_delay_then_sum)

section \<open>Sampling decision: \<open>is_sampling_now\<close>\<close>



lemma is_sampling_now_when_idle:
  assumes "sampling self = ''when idle''"
  shows "is_sampling_now self q =
     (case py_mod q (sample_period_ms self) of
           Inl e \<Rightarrow> (Inl e, self)
         | Inr r \<Rightarrow>
             if r = 0 then
               (if is_currently_idle self q
                then (Inr True, self\<lparr>needs_off_schedule_sample := Some False\<rparr>)
                else (Inr False, self\<lparr>needs_off_schedule_sample := Some True\<rparr>))
             else
               (case needs_off_schedule_sample self of
                  None \<Rightarrow> (Inl (AttributeError ''_needs_off_schedule_sample''), self)
                | Some b \<Rightarrow> (Inr (b \<and> is_currently_idle self q), self)))"
  using assms by (simp add: is_sampling_now_def)

lemma deferred_period: "deferred self q \<Longrightarrow> sample_period_ms self \<noteq> 0"
  by (auto simp: deferred_def on_schedule_def py_mod_def split: if_splits)

lemma is_sampling_now_deferred:
  assumes "sampling self = ''when idle''" and "deferred self q"
  shows "is_sampling_now self q
           = (Inr False, self\<lparr>needs_off_schedule_sample := Some True\<rparr>)"
  using assms(2)
  by (auto simp: is_sampling_now_when_idle[OF assms(1)] deferred_def on_schedule_def
           split: sum.splits)

lemma is_sampling_now_busy:
  assumes "sampling self = ''when idle''" and "needs_off_schedule_sample self = Some True"
    and "\<not> is_currently_idle self q"
  shows "needs_off_schedule_sample (snd (is_sampling_now self q)) = Some True
       \<and> fst (is_sampling_now self q) \<noteq> Inr True"
  using assms(2,3)
  by (auto simp: is_sampling_now_when_idle[OF assms(1)] split: sum.splits)

lemma is_sampling_now_idle_flagged:
  assumes "sampling self = ''when idle''" and "needs_off_schedule_sample self = Some True"
    and "is_currently_idle self q" and "sample_period_ms self \<noteq> 0"
  shows "fst (is_sampling_now self q) = Inr True"
  using assms(2-4)
  by (auto simp: is_sampling_now_when_idle[OF assms(1)] py_mod_def split: sum.splits)

lemma waits_keeps_flag:
  assumes "sampling self = ''when idle''" and "needs_off_schedule_sample self = Some True"
    and "waits self cs"
  shows "needs_off_schedule_sample (do_calls self cs) = Some True
       \<and> sampling (do_calls self cs) = ''when idle''
       \<and> sample_period_ms (do_calls self cs) = sample_period_ms self"
  using assms
proof (induction cs arbitrary: self)
  case Nil
  then show ?case by simp
next
  case (Cons c cs)
  show ?case
  proof (cases c)
    case (IsSamplingNow q)
    with Cons.prems(3) have b: "\<not> is_currently_idle self q"
      and w: "waits (snd (is_sampling_now self q)) cs" by simp_all
    have "sampling (snd (is_sampling_now self q)) = ''when idle''"
      and "sample_period_ms (snd (is_sampling_now self q)) = sample_period_ms self"
      using Cons.prems(1) by (simp_all add: is_sampling_now_keeps_config)
    moreover have "needs_off_schedule_sample (snd (is_sampling_now self q)) = Some True"
      using is_sampling_now_busy[OF Cons.prems(1,2) b] by simp
    ultimately show ?thesis using Cons.IH[OF _ _ w] IsSamplingNow by simp
  next
    case (PutState st t)
    with Cons.prems(3) show ?thesis by simp
  next
    case (GetCtrlSignal q)
    with Cons.prems(3) have w: "waits (snd (get_ctrl_signal self q)) cs" by simp
    have "sampling (snd (get_ctrl_signal self q)) = ''when idle''"
      and "sample_period_ms (snd (get_ctrl_signal self q)) = sample_period_ms self"
      and "needs_off_schedule_sample (snd (get_ctrl_signal self q)) = Some True"
      using Cons.prems(1,2) by (simp_all add: get_ctrl_signal_keeps_config)
    then show ?thesis using Cons.IH[OF _ _ w] GetCtrlSignal by simp
  qed
qed

lemma no_catch_up_unflagged:
  assumes "sampling self = ''when idle''" and "needs_off_schedule_sample self = Some False"
  shows "\<not> catch_up self q"
  using assms(2)
  by (auto simp: catch_up_def off_schedule_def is_sampling_now_when_idle[OF assms(1)]
           split: sum.splits)

lemma do_call_keeps_unflagged:
  assumes "sampling self = ''when idle''" and "needs_off_schedule_sample self = Some False"
    and "case c of IsSamplingNow q \<Rightarrow> \<not> deferred self q | _ \<Rightarrow> True"
  shows "sampling (do_call self c) = ''when idle''
       \<and> needs_off_schedule_sample (do_call self c) = Some False"
proof (cases c)
  case (IsSamplingNow q)
  with assms show ?thesis
    by (auto simp: is_sampling_now_when_idle[OF assms(1)] deferred_def on_schedule_def
             split: sum.splits)
next
  case (PutState st t)
  with assms show ?thesis
    by (auto simp: put_state_def Let_def split: prod.splits sum.splits)
next
  case (GetCtrlSignal q)
  with assms show ?thesis
    by (simp add: get_ctrl_signal_keeps_config)
qed

lemma no_deferral_no_catch_up:
  assumes "sampling self = ''when idle''" and "needs_off_schedule_sample self = Some False"
    and "deferrals self cs = 0"
  shows "catch_ups self cs = 0"
  using assms
proof (induction cs arbitrary: self)
  case Nil
  then show ?case by simp
next
  case (Cons c cs)
  from Cons.prems(3) have d: "case c of IsSamplingNow q \<Rightarrow> \<not> deferred self q | _ \<Rightarrow> True"
    and r: "deferrals (do_call self c) cs = 0"
    by (auto split: call.splits if_splits)
  from do_call_keeps_unflagged[OF Cons.prems(1,2) d]
  have k: "sampling (do_call self c) = ''when idle''"
    "needs_off_schedule_sample (do_call self c) = Some False" by simp_all
  have "(case c of IsSamplingNow q \<Rightarrow> (if catch_up self q then 1 else 0) | _ \<Rightarrow> 0)
          = (0::nat)"
    using no_catch_up_unflagged[OF Cons.prems(1,2)] by (auto split: call.splits)
  with Cons.IH[OF k r] show ?case by simp
qed

lemma put_state_unflags:
  assumes "fst (put_state self st t) = Inr ()"
  shows "needs_off_schedule_sample (snd (put_state self st t)) = Some False"
  using assms by (auto simp: put_state_def Let_def split: prod.splits sum.splits)

text \<open>
  Claim C2, as the code has it. Under "when idle" sampling, let a query at \<open>t0\<close> be on
  schedule while the scheduler is busy, so that the sample is deferred (the query is
  answered false). While the driver then waits (it fetches control signals and asks again
  at times at which the scheduler is still busy), the missed-sample flag stays raised, and
  at the first later query \<open>t\<close> at which the scheduler is idle, on schedule or not,
  \<open>is_sampling_now\<close> returns true. An off-schedule query does not consume the flag: it
  leaves the scheduler as it was, so further off-schedule queries at idle times are
  answered true as well. The flag is consumed by \<open>put_state\<close>: once the driver has put the
  state of that sample and \<open>put_state\<close> has returned, no off-schedule query is answered
  true in any further sequence of calls without a new deferral, so there is no second
  catch-up sample.
\<close>

theorem when_idle_deferred_sample:
  assumes "sampling self = ''when idle''"
    and "deferred self t0"
    and "waits (snd (is_sampling_now self t0)) cs"
    and "is_currently_idle (do_calls (snd (is_sampling_now self t0)) cs) t"
  shows "fst (is_sampling_now self t0) = Inr False
       \<and> needs_off_schedule_sample (do_calls (snd (is_sampling_now self t0)) cs) = Some True
       \<and> fst (is_sampling_now (do_calls (snd (is_sampling_now self t0)) cs) t) = Inr True
       \<and> (off_schedule (do_calls (snd (is_sampling_now self t0)) cs) t
          \<longrightarrow> snd (is_sampling_now (do_calls (snd (is_sampling_now self t0)) cs) t)
                = do_calls (snd (is_sampling_now self t0)) cs)
       \<and> (fst (put_state (snd (is_sampling_now
                  (do_calls (snd (is_sampling_now self t0)) cs) t)) st t) = Inr ()
          \<and> deferrals (snd (put_state (snd (is_sampling_now
                  (do_calls (snd (is_sampling_now self t0)) cs) t)) st t)) cs' = 0
          \<longrightarrow> catch_ups (snd (put_state (snd (is_sampling_now
                  (do_calls (snd (is_sampling_now self t0)) cs) t)) st t)) cs' = 0)"
proof -
  let ?s1 = "snd (is_sampling_now self t0)"
  let ?s2 = "do_calls ?s1 cs"
  let ?s3 = "snd (is_sampling_now ?s2 t)"
  let ?s4 = "snd (put_state ?s3 st t)"
  have d: "is_sampling_now self t0
             = (Inr False, self\<lparr>needs_off_schedule_sample := Some True\<rparr>)"
    by (rule is_sampling_now_deferred[OF assms(1,2)])
  have s1: "sampling ?s1 = ''when idle''" "needs_off_schedule_sample ?s1 = Some True"
    "sample_period_ms ?s1 = sample_period_ms self"
    using assms(1) by (simp_all add: d)
  from waits_keeps_flag[OF s1(1,2) assms(3)]
  have s2: "sampling ?s2 = ''when idle''" "needs_off_schedule_sample ?s2 = Some True"
    "sample_period_ms ?s2 \<noteq> 0"
    using s1(3) deferred_period[OF assms(2)] by simp_all
  have taken: "fst (is_sampling_now ?s2 t) = Inr True"
    by (rule is_sampling_now_idle_flagged[OF s2(1,2) assms(4) s2(3)])
  have s4: "sampling ?s4 = ''when idle''"
    using s2(1) by (simp add: put_state_keeps_config is_sampling_now_keeps_config)
  have once: "catch_ups ?s4 cs' = 0"
    if "fst (put_state ?s3 st t) = Inr ()" and "deferrals ?s4 cs' = 0"
    by (rule no_deferral_no_catch_up[OF s4 put_state_unflags[OF that(1)] that(2)])
  have kept: "snd (is_sampling_now ?s2 t) = ?s2" if "off_schedule ?s2 t"
    using that s2(2)
    by (auto simp: is_sampling_now_when_idle[OF s2(1)] off_schedule_def split: sum.splits)
  from d s2(2) taken kept once show ?thesis by simp
qed

theorem when_idle_deferred_sample_witness:
  "deferred MyDelayCL_first_sample 1
   \<and> waits (snd (is_sampling_now MyDelayCL_first_sample 1))
        [GetCtrlSignal 1, IsSamplingNow (11 / 10)]
   \<and> fst (is_sampling_now MyDelayCL_first_sample 1) = Inr False
   \<and> fst (is_sampling_now
        (do_calls (snd (is_sampling_now MyDelayCL_first_sample 1))
           [GetCtrlSignal 1, IsSamplingNow (11 / 10)]) (12 / 10)) = Inr True
   \<and> catch_ups (snd (put_state (snd (is_sampling_now
        (do_calls (snd (is_sampling_now MyDelayCL_first_sample 1))
           [GetCtrlSignal 1, IsSamplingNow (11 / 10)]) (12 / 10)))
           [''in'' \<mapsto> 66] (12 / 10)))
        [GetCtrlSignal (12 / 10), IsSamplingNow (13 / 10)] = 0"
proof -
  let ?s = "MyDelayCL_first_sample"
  let ?cs = "[GetCtrlSignal 1, IsSamplingNow (11 / 10)]
               :: (string \<rightharpoonup> real) call list"
  let ?cs' = "[GetCtrlSignal (12 / 10), IsSamplingNow (13 / 10)]
               :: (string \<rightharpoonup> real) call list"
  let ?s3 = "snd (is_sampling_now (do_calls (snd (is_sampling_now ?s 1)) ?cs) (12 / 10))"
  have h1: "sampling ?s = ''when idle''" by (simp add: scenario_defs)
  have h2: "deferred ?s 1" by (simp add: scenario_defs)
  have h3: "waits (snd (is_sampling_now ?s 1)) ?cs" by (simp add: scenario_defs)
  have h4: "is_currently_idle (do_calls (snd (is_sampling_now ?s 1)) ?cs) (12 / 10)"
    by (simp add: scenario_defs)
  have h5: "fst (put_state ?s3 [''in'' \<mapsto> 66] (12 / 10)) = Inr ()"
    by (simp add: scenario_defs)
  have h6: "deferrals (snd (put_state ?s3 [''in'' \<mapsto> 66] (12 / 10))) ?cs' = 0"
    by (simp add: scenario_defs)
  from when_idle_deferred_sample[OF h1 h2 h3 h4, where st = "[''in'' \<mapsto> 66]"
         and cs' = ?cs'] h2 h3 h5 h6
  show ?thesis by simp
qed

theorem when_idle_repeated_catch_up_counterexample:
  "deferred MyDelayCL_first_sample 1
   \<and> deferrals (snd (is_sampling_now MyDelayCL_first_sample 1))
        [IsSamplingNow (12 / 10), IsSamplingNow (13 / 10), IsSamplingNow (14 / 10)] = 0
   \<and> catch_ups (snd (is_sampling_now MyDelayCL_first_sample 1))
        [IsSamplingNow (12 / 10), IsSamplingNow (13 / 10), IsSamplingNow (14 / 10)] = 3"
  by (simp add: scenario_defs)

end
